theory Spec2Isabelle
  imports Complex_Main "HOL-Library.Word"
begin

section \<open>The AMQP message queue of \<^verbatim>\<open>src/mq.ts\<close>\<close>

text \<open>
  The class \<^verbatim>\<open>AmqpMessageQueue\<close> talks to a broker through the client library's
  \<^verbatim>\<open>Connection\<close> and \<^verbatim>\<open>Channel\<close> objects.  The model records every call the class
  makes on them as an event of a trace, in program order, together with the moment an
  awaited call is answered.  A promise that is created and not awaited stays in the list
  of outstanding requests: the program went on without its answer.
\<close>

subsection \<open>Data\<close>

type_synonym channel = nat
  \<comment> \<open>the identity of a \<^verbatim>\<open>Channel\<close>: the number of channels the connection had opened before\<close>

type_synonym bytes = "8 word list"

type_synonym duration = rat
  \<comment> \<open>a \<^verbatim>\<open>Temporal.Duration\<close>, held as the number \<^verbatim>\<open>total("millisecond")\<close> gives for it;
     JavaScript numbers are taken as exact rationals\<close>

text \<open>The private fields of the class, set by the constructor.\<close>

record AmqpMessageQueue =
  queue :: string
  delayedQueuePrefix :: string
  durable :: bool
  senderChannel :: "channel option"

record AmqpMessageQueueOptions =
  opt_queue :: "string option"
  opt_delayedQueuePrefix :: "string option"
  opt_durable :: "bool option"

record MessageQueueEnqueueOptions =
  delay :: "duration option"

text \<open>The option objects handed to the channel; a field left out is \<open>None\<close>.\<close>

record assertQueue_options =
  aq_autoDelete :: "bool option"
  aq_durable :: "bool option"
  aq_deadLetterExchange :: "string option"
  aq_deadLetterRoutingKey :: "string option"
  aq_messageTtl :: "rat option"

record publish_options =
  persistent :: bool
  contentType :: string

record consume_options =
  noAck :: bool

record ConsumeMessage =
  deliveryTag :: nat
  content :: bytes

text \<open>The calls that return a promise (a request to the broker and its answer).\<close>

datatype rpc =
    CreateChannel
  | AssertQueue channel string assertQueue_options
  | Prefetch channel nat
  | Consume channel string consume_options
  | Cancel channel string
  | Close channel

datatype error =
    TransportError rpc
  | TypeError
  | SyntaxError
  | HandlerError

datatype 'm event =
    Issued rpc
  | Answered rpc
  | Refused rpc
  | SendToQueue channel string bytes publish_options
  | Ack channel ConsumeMessage
  | Invoked ConsumeMessage 'm
  | Completed ConsumeMessage bool
  | Uncaught error
  | Resolved

text \<open>
  The broker and the connection, as the class sees them: which requests the broker
  answers (the others are rejected), and the consumer tag it hands out on a channel.
\<close>

record broker =
  accepts :: "rpc \<Rightarrow> bool"
  consumerTag :: "channel \<Rightarrow> string"

text \<open>
  The JavaScript library functions the class calls on a message.  \<^verbatim>\<open>JSON.stringify\<close>
  throws (a BigInt, a cyclic object), returns \<^verbatim>\<open>undefined\<close> (for \<^verbatim>\<open>undefined\<close>, a
  function, a symbol) or returns a string; \<^verbatim>\<open>JSON.parse\<close> throws a SyntaxError
  (\<open>None\<close>) or returns a value.
\<close>

datatype stringified = Throws | Undefined | Text string

record 'm runtime =
  JSON_stringify :: "'m \<Rightarrow> stringified"
  JSON_parse :: "string \<Rightarrow> 'm option"
  utf8_encode :: "string \<Rightarrow> bytes"
  utf8_decode :: "bytes \<Rightarrow> string"

text \<open>The state: the object, the connection's channel count, and what has happened.\<close>

record 'm state =
  this :: AmqpMessageQueue
  opened :: nat
  outstanding :: "rpc list"
  trace :: "'m event list"

subsection \<open>Constructor\<close>

definition new_AmqpMessageQueue :: "AmqpMessageQueueOptions \<Rightarrow> AmqpMessageQueue" where
  "new_AmqpMessageQueue options =
     \<lparr> queue = (case opt_queue options of None \<Rightarrow> ''fedify_queue'' | Some q \<Rightarrow> q),
       delayedQueuePrefix =
         (case opt_delayedQueuePrefix options of None \<Rightarrow> ''fedify_delayed_'' | Some p \<Rightarrow> p),
       durable = (case opt_durable options of None \<Rightarrow> True | Some d \<Rightarrow> d),
       senderChannel = None \<rparr>"

definition no_options :: AmqpMessageQueueOptions where
  "no_options = \<lparr> opt_queue = None, opt_delayedQueuePrefix = None, opt_durable = None \<rparr>"

definition initial :: "AmqpMessageQueue \<Rightarrow> 'm state" where
  "initial mq = \<lparr> this = mq, opened = 0, outstanding = [], trace = [] \<rparr>"

subsection \<open>Promises\<close>

text \<open>
  Calling a channel method sends the request at once and returns a promise;
  \<^verbatim>\<open>await\<close> suspends until the answer is there and throws when the promise is rejected.
\<close>

definition emit :: "'m event list \<Rightarrow> 'm state \<Rightarrow> 'm state" where
  "emit es st = st\<lparr> trace := trace st @ es \<rparr>"

definition call :: "rpc \<Rightarrow> 'm state \<Rightarrow> 'm state" where
  "call r st = emit [Issued r] (st\<lparr> outstanding := outstanding st @ [r] \<rparr>)"

definition await :: "broker \<Rightarrow> rpc \<Rightarrow> 'm state \<Rightarrow> (error + unit) \<times> 'm state" where
  "await b r st =
     (let st' = st\<lparr> outstanding := remove1 r (outstanding st) \<rparr>
      in if accepts b r then (Inr (), emit [Answered r] st')
         else (Inl (TransportError r), emit [Refused r] st'))"

definition createChannel :: "broker \<Rightarrow> 'm state \<Rightarrow> (error + channel) \<times> 'm state" where
  "createChannel b st =
     (case await b CreateChannel (call CreateChannel st) of
        (Inl e, st') \<Rightarrow> (Inl e, st')
      | (Inr _, st') \<Rightarrow> (Inr (opened st'), st'\<lparr> opened := Suc (opened st') \<rparr>))"

subsection \<open>Declaring the main queue\<close>

definition main_queue_options :: "AmqpMessageQueue \<Rightarrow> assertQueue_options" where
  "main_queue_options mq =
     \<lparr> aq_autoDelete = None, aq_durable = Some (durable mq), aq_deadLetterExchange = None,
       aq_deadLetterRoutingKey = None, aq_messageTtl = None \<rparr>"

definition declare_main :: "AmqpMessageQueue \<Rightarrow> channel \<Rightarrow> rpc" where
  "declare_main mq channel = AssertQueue channel (queue mq) (main_queue_options mq)"

text \<open>
  \<^verbatim>\<open>#prepareQueue\<close> is an async function with one awaited call.  Called, it runs up to
  that call (the request is sent) and returns its promise; the promise settles with the
  answer to the request.
\<close>

definition prepareQueue :: "channel \<Rightarrow> 'm state \<Rightarrow> 'm state" where
  "prepareQueue channel st = call (declare_main (this st) channel) st"

definition await_prepareQueue ::
  "broker \<Rightarrow> channel \<Rightarrow> 'm state \<Rightarrow> (error + unit) \<times> 'm state" where
  "await_prepareQueue b channel st =
     await b (declare_main (this st) channel) (prepareQueue channel st)"

subsection \<open>The channel for publishing\<close>

text \<open>
  \<^verbatim>\<open>#getSenderChannel\<close>: the cached channel if there is one; else a new channel, cached,
  on which \<^verbatim>\<open>#prepareQueue\<close> is called and its promise dropped (no \<^verbatim>\<open>await\<close>).
\<close>

definition getSenderChannel :: "broker \<Rightarrow> 'm state \<Rightarrow> (error + channel) \<times> 'm state" where
  "getSenderChannel b st =
     (case senderChannel (this st) of
        Some channel \<Rightarrow> (Inr channel, st)
      | None \<Rightarrow>
          (case createChannel b st of
             (Inl e, st1) \<Rightarrow> (Inl e, st1)
           | (Inr channel, st1) \<Rightarrow>
               (let st2 = st1\<lparr> this := (this st1)\<lparr> senderChannel := Some channel \<rparr> \<rparr>
                in (Inr channel, prepareQueue channel st2))))"

subsection \<open>Numbers as text\<close>

text \<open>
  \<^verbatim>\<open>delay.toLocaleString("en", { useGrouping: false })\<close>: the number in the decimal
  style of the locale \<^verbatim>\<open>en\<close>, with the defaults of that style (at least one integer
  digit, no fraction digit required, at most three fraction digits, ties rounded away
  from zero), the digits \<^verbatim>\<open>0\<close> to \<^verbatim>\<open>9\<close>, the decimal point \<^verbatim>\<open>.\<close>, the minus sign
  \<^verbatim>\<open>-\<close>, and no grouping separator.
\<close>

definition digit :: "nat \<Rightarrow> char" where
  "digit n = ''0123456789'' ! (n mod 10)"

fun digits :: "nat \<Rightarrow> string" where
  "digits n = (if n < 10 then [digit n] else digits (n div 10) @ [digit (n mod 10)])"

declare digits.simps [simp del]

definition fraction_digits :: "nat \<Rightarrow> string" where
  "fraction_digits f =
     rev (dropWhile (\<lambda>c. c = CHR ''0'')
       (rev [digit (f div 100), digit (f div 10), digit f]))"

definition thousandths :: "rat \<Rightarrow> nat" where
  "thousandths x = nat \<lfloor>\<bar>x\<bar> * 1000 + 1 / 2\<rfloor>"

definition toLocaleString_en :: "rat \<Rightarrow> string" where
  "toLocaleString_en x =
     (let t = thousandths x;
          f = fraction_digits (t mod 1000)
      in (if x < 0 then ''-'' else [])
         @ digits (t div 1000)
         @ (if f = [] then [] else CHR ''.'' # f))"

subsection \<open>Publishing\<close>

definition delay_queue_options :: "AmqpMessageQueue \<Rightarrow> rat \<Rightarrow> assertQueue_options" where
  "delay_queue_options mq d =
     \<lparr> aq_autoDelete = Some True, aq_durable = Some (durable mq),
       aq_deadLetterExchange = Some [], aq_deadLetterRoutingKey = Some (queue mq),
       aq_messageTtl = Some d \<rparr>"

definition delay_queue_name :: "AmqpMessageQueue \<Rightarrow> rat \<Rightarrow> string" where
  "delay_queue_name mq d = delayedQueuePrefix mq @ toLocaleString_en d"

definition total_millisecond :: "MessageQueueEnqueueOptions option \<Rightarrow> rat option" where
  \<comment> \<open>\<^verbatim>\<open>options?.delay?.total("millisecond")\<close>\<close>
  "total_millisecond options = (case options of None \<Rightarrow> None | Some opts \<Rightarrow> delay opts)"

definition Buffer_from :: "'m runtime \<Rightarrow> stringified \<Rightarrow> error + bytes" where
  \<comment> \<open>\<^verbatim>\<open>Buffer.from(JSON.stringify(message), "utf-8")\<close>: \<^verbatim>\<open>Buffer.from(undefined, ...)\<close> throws\<close>
  "Buffer_from rt s =
     (case s of Throws \<Rightarrow> Inl TypeError | Undefined \<Rightarrow> Inl TypeError
      | Text t \<Rightarrow> Inr (utf8_encode rt t))"

definition publish_opts :: "AmqpMessageQueue \<Rightarrow> publish_options" where
  "publish_opts mq = \<lparr> persistent = durable mq, contentType = ''application/json'' \<rparr>"

definition enqueue ::
  "'m runtime \<Rightarrow> broker \<Rightarrow> 'm \<Rightarrow> MessageQueueEnqueueOptions option \<Rightarrow> 'm state
     \<Rightarrow> (error + unit) \<times> 'm state" where
  "enqueue rt b message options st =
     (case getSenderChannel b st of
        (Inl e, st1) \<Rightarrow> (Inl e, st1)
      | (Inr channel, st1) \<Rightarrow>
          (case
             (case total_millisecond options of
                None \<Rightarrow> (Inr (queue (this st1)), st1)
              | Some d \<Rightarrow>
                  if d \<le> 0 then (Inr (queue (this st1)), st1)
                  else
                    (let q = delay_queue_name (this st1) d;
                         r = AssertQueue channel q (delay_queue_options (this st1) d)
                     in case await b r (call r st1) of
                          (Inl e, st2) \<Rightarrow> (Inl e, st2)
                        | (Inr _, st2) \<Rightarrow> (Inr q, st2)))
           of
             (Inl e, st2) \<Rightarrow> (Inl e, st2)
           | (Inr q, st2) \<Rightarrow>
               (case Buffer_from rt (JSON_stringify rt message) of
                  Inl e \<Rightarrow> (Inl e, st2)
                | Inr payload \<Rightarrow>
                    (Inr (), emit [SendToQueue channel q payload (publish_opts (this st2))] st2))))"

subsection \<open>Listening\<close>

text \<open>
  The handler is called with the parsed message and returns at once: with a value that is
  no \<^verbatim>\<open>Promise\<close>, by throwing, or with a promise, which settles later (or never).
\<close>

datatype handler_result = Returned | Threw | ReturnedPromise

record abort_signal =
  aborted :: bool

record MessageQueueListenOptions =
  signal :: "abort_signal option"

text \<open>
  What a call of \<^verbatim>\<open>listen\<close> leaves behind once the consumer is set up: the variables its
  closures hold (\<^verbatim>\<open>channel\<close>, \<^verbatim>\<open>reply.consumerTag\<close>, \<^verbatim>\<open>options.signal\<close>), the messages
  whose handler returned a promise that has not settled, and whether the promise that
  \<^verbatim>\<open>listen\<close> returned has been resolved.
\<close>

record 'm session =
  consumer_channel :: channel
  reply_tag :: string
  session_signal :: "abort_signal option"
  unsettled :: "ConsumeMessage list"
  resolved :: bool
  world :: "'m state"

definition listen ::
  "broker \<Rightarrow> MessageQueueListenOptions \<Rightarrow> 'm state \<Rightarrow> (error \<times> 'm state) + 'm session" where
  "listen b options st =
     (case createChannel b st of
        (Inl e, st1) \<Rightarrow> Inl (e, st1)
      | (Inr channel, st1) \<Rightarrow>
          (case await_prepareQueue b channel st1 of
             (Inl e, st2) \<Rightarrow> Inl (e, st2)
           | (Inr _, st2) \<Rightarrow>
               (case await b (Prefetch channel 1) (call (Prefetch channel 1) st2) of
                  (Inl e, st3) \<Rightarrow> Inl (e, st3)
                | (Inr _, st3) \<Rightarrow>
                    (let r = Consume channel (queue (this st3)) \<lparr> noAck = False \<rparr>
                     in case await b r (call r st3) of
                          (Inl e, st4) \<Rightarrow> Inl (e, st4)
                        | (Inr _, st4) \<Rightarrow>
                            Inr \<lparr> consumer_channel = channel,
                                  reply_tag = consumerTag b channel,
                                  session_signal = signal options,
                                  unsettled = [], resolved = False, world = st4 \<rparr>))))"

text \<open>The callback given to \<^verbatim>\<open>channel.consume\<close>; \<open>Inl\<close> is an exception leaving it.\<close>

definition on_message ::
  "'m runtime \<Rightarrow> ('m \<Rightarrow> handler_result) \<Rightarrow> ConsumeMessage option \<Rightarrow> 'm session
     \<Rightarrow> (error + unit) \<times> 'm session" where
  "on_message rt handler msg s =
     (case msg of
        None \<Rightarrow> (Inr (), s)
      | Some m \<Rightarrow>
          (case JSON_parse rt (utf8_decode rt (content m)) of
             None \<Rightarrow> (Inl SyntaxError, s)
           | Some message \<Rightarrow>
               (case handler message of
                  Threw \<Rightarrow>
                    (Inl HandlerError,
                     s\<lparr> world := emit [Invoked m message, Completed m False] (world s) \<rparr>)
                | ReturnedPromise \<Rightarrow>
                    (Inr (),
                     s\<lparr> world := emit [Invoked m message] (world s),
                        unsettled := unsettled s @ [m] \<rparr>)
                | Returned \<Rightarrow>
                    (Inr (),
                     s\<lparr> world := emit [Invoked m message, Completed m True,
                                        Ack (consumer_channel s) m] (world s) \<rparr>))))"

text \<open>The callback given to \<^verbatim>\<open>result.finally\<close>, run when the handler's promise settles.\<close>

definition on_settled :: "ConsumeMessage \<Rightarrow> bool \<Rightarrow> 'm session \<Rightarrow> 'm session" where
  "on_settled m fulfilled s =
     s\<lparr> world := emit [Completed m fulfilled, Ack (consumer_channel s) m] (world s),
        unsettled := remove1 m (unsettled s) \<rparr>"

text \<open>
  The listener added to the signal, and the callbacks chained on the promises of
  \<^verbatim>\<open>channel.cancel\<close> and \<^verbatim>\<open>channel.close\<close> by \<^verbatim>\<open>then\<close>.
\<close>

definition on_abort :: "'m session \<Rightarrow> 'm session" where
  "on_abort s = s\<lparr> world := call (Cancel (consumer_channel s) (reply_tag s)) (world s) \<rparr>"

definition on_cancelled :: "'m session \<Rightarrow> 'm session" where
  "on_cancelled s = s\<lparr> world := call (Close (consumer_channel s)) (world s) \<rparr>"

definition on_closed :: "'m session \<Rightarrow> 'm session" where
  "on_closed s = s\<lparr> world := emit [Resolved] (world s), resolved := True \<rparr>"

text \<open>
  What can happen while \<^verbatim>\<open>listen\<close>'s promise is pending.  A signal dispatches
  \<^verbatim>\<open>abort\<close> once, when it goes from not aborted to aborted; a promise settles once, and
  a \<^verbatim>\<open>then\<close> callback runs only when its promise is fulfilled.
\<close>

datatype occurrence =
    Delivers "ConsumeMessage option"
  | Settles ConsumeMessage bool
  | Aborts
  | Replies rpc

definition react ::
  "'m runtime \<Rightarrow> broker \<Rightarrow> ('m \<Rightarrow> handler_result) \<Rightarrow> occurrence \<Rightarrow> 'm session \<Rightarrow> 'm session" where
  "react rt b handler occ s =
     (case occ of
        Delivers msg \<Rightarrow>
          (case on_message rt handler msg s of
             (Inl e, s') \<Rightarrow> s'\<lparr> world := emit [Uncaught e] (world s') \<rparr>
           | (Inr _, s') \<Rightarrow> s')
      | Settles m fulfilled \<Rightarrow>
          if m \<in> set (unsettled s) then on_settled m fulfilled s else s
      | Aborts \<Rightarrow>
          (case session_signal s of
             None \<Rightarrow> s
           | Some sig \<Rightarrow>
               if aborted sig then s
               else on_abort (s\<lparr> session_signal := Some (sig\<lparr> aborted := True \<rparr>) \<rparr>))
      | Replies r \<Rightarrow>
          if r \<notin> set (outstanding (world s)) then s
          else
            (case await b r (world s) of
               (Inl e, w) \<Rightarrow> s\<lparr> world := w \<rparr>
             | (Inr _, w) \<Rightarrow>
                 if r = Cancel (consumer_channel s) (reply_tag s) then on_cancelled (s\<lparr> world := w \<rparr>)
                 else if r = Close (consumer_channel s) then on_closed (s\<lparr> world := w \<rparr>)
                 else s\<lparr> world := w \<rparr>))"

fun run ::
  "'m runtime \<Rightarrow> broker \<Rightarrow> ('m \<Rightarrow> handler_result) \<Rightarrow> occurrence list \<Rightarrow> 'm session \<Rightarrow> 'm session" where
  "run rt b handler [] s = s"
| "run rt b handler (occ # occs) s = run rt b handler occs (react rt b handler occ s)"

subsection \<open>A runtime and a broker for examples\<close>

text \<open>
  The examples run on a small universe of JavaScript values.  A string holds its text in
  UTF-8, so that encoding it yields its characters as bytes.  \<open>stringify\<close> is
  \<^verbatim>\<open>JSON.stringify\<close> on these values; \<open>parse\<close> is \<^verbatim>\<open>JSON.parse\<close> on the texts the
  examples use: one of the three literals or a string literal without escapes.  A text
  that is no JSON (\<^verbatim>\<open>{\<close>, say) is rejected; JSON texts outside the fragment do not
  occur in the examples.
\<close>

datatype json = JUndefined | JNull | JBool bool | JBigInt int | JString string

definition backslash :: char where
  "backslash = CHR 0x5C"

definition hex :: "nat \<Rightarrow> char" where
  "hex n = ''0123456789abcdef'' ! (n mod 16)"

definition escape :: "char \<Rightarrow> string" where
  "escape c =
     (let n = (of_char c :: nat) in
      if c = CHR ''\"'' then [backslash, c]
      else if c = backslash then [backslash, c]
      else if n = 8 then [backslash, CHR ''b'']
      else if n = 9 then [backslash, CHR ''t'']
      else if n = 10 then [backslash, CHR ''n'']
      else if n = 12 then [backslash, CHR ''f'']
      else if n = 13 then [backslash, CHR ''r'']
      else if n < 32 then [backslash, CHR ''u'', CHR ''0'', CHR ''0'', hex (n div 16), hex n]
      else [c])"

definition quote :: "string \<Rightarrow> string" where
  "quote s = CHR ''\"'' # concat (map escape s) @ [CHR ''\"'']"

fun stringify :: "json \<Rightarrow> stringified" where
  "stringify JUndefined = Undefined"
| "stringify JNull = Text ''null''"
| "stringify (JBool b) = Text (if b then ''true'' else ''false'')"
| "stringify (JBigInt n) = Throws"
| "stringify (JString s) = Text (quote s)"

definition plain :: "char \<Rightarrow> bool" where
  "plain c = (c \<noteq> CHR ''\"'' \<and> c \<noteq> backslash \<and> 32 \<le> (of_char c :: nat))"

definition parse :: "string \<Rightarrow> json option" where
  "parse s =
     (if s = ''null'' then Some JNull
      else if s = ''true'' then Some (JBool True)
      else if s = ''false'' then Some (JBool False)
      else if 2 \<le> length s \<and> hd s = CHR ''\"'' \<and> last s = CHR ''\"''
                \<and> list_all plain (butlast (tl s))
        then Some (JString (butlast (tl s)))
      else None)"

definition example_runtime :: "json runtime" where
  "example_runtime =
     \<lparr> JSON_stringify = stringify, JSON_parse = parse,
       utf8_encode = map (\<lambda>c. of_char c), utf8_decode = map (\<lambda>w. char_of (unat w)) \<rparr>"

definition reliable_broker :: broker where
  "reliable_broker = \<lparr> accepts = (\<lambda>r. True), consumerTag = (\<lambda>ch. ''amq.ctag-'' @ digits ch) \<rparr>"

definition fresh :: "json state" where
  "fresh = initial (new_AmqpMessageQueue no_options)"

definition hello :: ConsumeMessage where
  "hello = \<lparr> deliveryTag = 1, content = utf8_encode example_runtime (quote ''Hello, world!'') \<rparr>"

definition malformed :: ConsumeMessage where
  "malformed = \<lparr> deliveryTag = 2, content = utf8_encode example_runtime ''{'' \<rparr>"

definition listening :: "abort_signal option \<Rightarrow> json session" where
  "listening sig =
     \<lparr> consumer_channel = 0, reply_tag = ''amq.ctag-0'', session_signal = sig,
       unsettled = [], resolved = False,
       world =
         \<lparr> this = new_AmqpMessageQueue no_options, opened = 1, outstanding = [],
           trace =
             [Issued CreateChannel, Answered CreateChannel,
              Issued (declare_main (new_AmqpMessageQueue no_options) 0),
              Answered (declare_main (new_AmqpMessageQueue no_options) 0),
              Issued (Prefetch 0 1), Answered (Prefetch 0 1),
              Issued (Consume 0 ''fedify_queue'' \<lparr> noAck = False \<rparr>),
              Answered (Consume 0 ''fedify_queue'' \<lparr> noAck = False \<rparr>)] \<rparr> \<rparr>"

subsection \<open>Observing a trace\<close>

fun is_publish :: "'m event \<Rightarrow> bool" where
  "is_publish (SendToQueue channel q payload opts) = True"
| "is_publish e = False"

fun is_ack :: "'m event \<Rightarrow> bool" where
  "is_ack (Ack channel m) = True"
| "is_ack e = False"

subsection \<open>Reading a decimal\<close>




subsection \<open>Observing the shutdown\<close>

text \<open>
  The steps of a shutdown, in the order the claim gives them, and the events of a
  session's trace, from position \<open>n\<close> on, that are such steps.
\<close>

definition shutdown_steps :: "'m session \<Rightarrow> 'm event list" where
  "shutdown_steps s =
     [Issued (Cancel (consumer_channel s) (reply_tag s)),
      Answered (Cancel (consumer_channel s) (reply_tag s)),
      Issued (Close (consumer_channel s)),
      Answered (Close (consumer_channel s)),
      Resolved]"

definition shutdown_trace :: "nat \<Rightarrow> 'm session \<Rightarrow> 'm event list" where
  "shutdown_trace n s = filter (\<lambda>e. e \<in> set (shutdown_steps s)) (drop n (trace (world s)))"

text \<open>
  For the proofs: how far the shutdown of a session has come.  A refused request leaves
  the chain where it is, since no callback waits for a rejection.
\<close>

datatype stage = Idle | Cancelling | CancelRefused | Closing | CloseRefused | Closed

fun steps_done :: "stage \<Rightarrow> nat" where
  "steps_done Idle = 0"
| "steps_done Cancelling = 1"
| "steps_done CancelRefused = 1"
| "steps_done Closing = 3"
| "steps_done CloseRefused = 3"
| "steps_done Closed = 5"

definition in_stage :: "nat \<Rightarrow> channel \<Rightarrow> string \<Rightarrow> stage \<Rightarrow> 'm session \<Rightarrow> bool" where
  "in_stage n ch tag g s \<longleftrightarrow>
     consumer_channel s = ch \<and> reply_tag s = tag \<and> n \<le> length (trace (world s))
     \<and> (\<exists>sig. session_signal s = Some sig \<and> (aborted sig \<longleftrightarrow> g \<noteq> Idle))
     \<and> (resolved s \<longleftrightarrow> g = Closed)
     \<and> count_list (outstanding (world s)) (Cancel ch tag) = (if g = Cancelling then 1 else 0)
     \<and> count_list (outstanding (world s)) (Close ch) = (if g = Closing then 1 else 0)
     \<and> shutdown_trace n s = take (steps_done g) (shutdown_steps s)"

text \<open>For the proofs: a session whose promise nothing can resolve any more.\<close>

definition unreachable :: "nat \<Rightarrow> channel \<Rightarrow> string \<Rightarrow> 'm session \<Rightarrow> bool" where
  "unreachable n ch tag s \<longleftrightarrow>
     consumer_channel s = ch \<and> reply_tag s = tag \<and> n \<le> length (trace (world s))
     \<and> (case session_signal s of None \<Rightarrow> True | Some sig \<Rightarrow> aborted sig)
     \<and> \<not> resolved s
     \<and> Cancel ch tag \<notin> set (outstanding (world s))
     \<and> Close ch \<notin> set (outstanding (world s))
     \<and> Resolved \<notin> set (drop n (trace (world s)))"

section \<open>Properties\<close>

lemmas promise_defs = emit_def call_def await_def createChannel_def

lemmas enqueue_defs = enqueue_def getSenderChannel_def prepareQueue_def declare_main_def
  main_queue_options_def Buffer_from_def total_millisecond_def publish_opts_def
  delay_queue_name_def delay_queue_options_def

lemmas listen_defs = listen_def await_prepareQueue_def prepareQueue_def declare_main_def
  main_queue_options_def on_message_def on_settled_def on_abort_def on_cancelled_def
  on_closed_def react_def

lemmas example_defs = reliable_broker_def example_runtime_def fresh_def initial_def
  new_AmqpMessageQueue_def no_options_def hello_def malformed_def listening_def quote_def
  escape_def backslash_def

lemma floor_rat_numeral: "\<lfloor>numeral a / numeral b :: rat\<rfloor> = numeral a div numeral b"
  using floor_divide_of_int_eq[of "numeral a" "numeral b", where ?'a=rat] by simp

lemma listen_fresh: "listen reliable_broker \<lparr> signal = sig \<rparr> fresh = Inr (listening sig)"
  by (simp add: example_defs promise_defs listen_defs digits.simps digit_def Let_def)

subsection \<open>The channel for publishing\<close>



lemma getSenderChannel_refused:
  assumes "senderChannel (this st) = None" "\<not> accepts b CreateChannel"
  shows "fst (getSenderChannel b st) = Inl (TransportError CreateChannel)"
    and "trace (snd (getSenderChannel b st)) = trace st @ [Issued CreateChannel, Refused CreateChannel]"
    and "this (snd (getSenderChannel b st)) = this st"
  using assms by (simp_all add: getSenderChannel_def prepareQueue_def promise_defs)

lemma getSenderChannel_config:
  "queue (this (snd (getSenderChannel b st))) = queue (this st)
   \<and> durable (this (snd (getSenderChannel b st))) = durable (this st)
   \<and> delayedQueuePrefix (this (snd (getSenderChannel b st))) = delayedQueuePrefix (this st)"
  by (cases "senderChannel (this st)"; cases "accepts b CreateChannel")
     (simp_all add: getSenderChannel_def prepareQueue_def promise_defs)

lemma getSenderChannel_trace:
  "\<exists>evs. trace (snd (getSenderChannel b st)) = trace st @ evs \<and> filter is_publish evs = []
     \<and> (\<forall>ch q ao. Issued (AssertQueue ch q ao) \<in> set evs \<longrightarrow> q = queue (this st) \<and> ao = main_queue_options (this st))"
  by (cases "senderChannel (this st)"; cases "accepts b CreateChannel")
     (simp_all add: getSenderChannel_def prepareQueue_def promise_defs declare_main_def
        main_queue_options_def)

text \<open>
  C3.  The claim: every call of \<^verbatim>\<open>#getSenderChannel\<close> returns a channel on which the main
  queue has been declared by the time the call completes.  The code sends the declaration
  and returns without waiting for it (\<^verbatim>\<open>this.#prepareQueue(channel)\<close> has no \<^verbatim>\<open>await\<close>,
  where \<^verbatim>\<open>listen\<close> has one).  On a new object with a broker that answers everything, the
  first call returns channel 0 when the declaration has been issued and not answered: it
  is still outstanding.
\<close>

theorem getSenderChannel_returns_undeclared:
  "fst (getSenderChannel reliable_broker fresh) = Inr 0
   \<and> trace (snd (getSenderChannel reliable_broker fresh)) =
       [Issued CreateChannel, Answered CreateChannel,
        Issued (AssertQueue 0 ''fedify_queue'' (main_queue_options (this fresh)))]
   \<and> outstanding (snd (getSenderChannel reliable_broker fresh)) =
       [AssertQueue 0 ''fedify_queue'' (main_queue_options (this fresh))]
   \<and> Answered (AssertQueue 0 ''fedify_queue'' (main_queue_options (this fresh)))
       \<notin> set (trace (snd (getSenderChannel reliable_broker fresh)))"
  by (simp add: example_defs promise_defs enqueue_defs)

subsection \<open>Publishing\<close>

text \<open>\<open>enqueue\<close>, taken apart at the channel.\<close>

lemma enqueue_channel_failed:
  "getSenderChannel b st = (Inl e, st1) \<Longrightarrow> enqueue rt b m options st = (Inl e, st1)"
  by (simp add: enqueue_def)

lemma enqueue_direct:
  assumes "getSenderChannel b st = (Inr channel, st1)"
      and "total_millisecond options = None \<or> (\<exists>d. total_millisecond options = Some d \<and> d \<le> 0)"
  shows "enqueue rt b m options st =
     (case Buffer_from rt (JSON_stringify rt m) of
        Inl e \<Rightarrow> (Inl e, st1)
      | Inr payload \<Rightarrow>
          (Inr (), emit [SendToQueue channel (queue (this st1)) payload (publish_opts (this st1))] st1))"
  using assms by (auto simp: enqueue_def split: sum.splits)

lemma enqueue_delayed:
  assumes "getSenderChannel b st = (Inr channel, st1)"
      and "total_millisecond options = Some d" "0 < d"
  shows "enqueue rt b m options st =
     (let q = delay_queue_name (this st1) d;
          r = AssertQueue channel q (delay_queue_options (this st1) d);
          st2 = st1\<lparr> outstanding := remove1 r (outstanding st1 @ [r]),
                    trace := trace st1 @ [Issued r] \<rparr>
      in if accepts b r then
           (case Buffer_from rt (JSON_stringify rt m) of
              Inl e \<Rightarrow> (Inl e, emit [Answered r] st2)
            | Inr payload \<Rightarrow>
               (Inr (),
                emit [Answered r, SendToQueue channel q payload (publish_opts (this st1))] st2))
         else (Inl (TransportError r), emit [Refused r] st2))"
  using assms by (auto simp: enqueue_def Let_def promise_defs split: sum.splits)

lemma delay_cases:
  obtains (direct) "total_millisecond options = None \<or> (\<exists>d. total_millisecond options = Some d \<and> d \<le> 0)"
        | (delayed) d where "total_millisecond options = Some d" "0 < d"
  by (cases "total_millisecond options") force+

lemma Buffer_from_Inr:
  "Buffer_from rt x = Inr p \<Longrightarrow> \<exists>s. x = Text s \<and> p = utf8_encode rt s"
  by (auto simp: Buffer_from_def split: stringified.splits)


text \<open>
  C6.  When the delay is absent, zero or negative, the events of \<open>enqueue\<close> declare no
  queue but the main queue (with its one option, on first use of the channel), every
  publish goes to the main queue, a call that succeeds ends with that publish, and the
  call succeeds as soon as the channel is there and the message can be serialized.
\<close>

theorem enqueue_without_delay:
  assumes "total_millisecond options = None \<or> (\<exists>d. total_millisecond options = Some d \<and> d \<le> 0)"
  shows "\<exists>evs. trace (snd (enqueue rt b m options st)) = trace st @ evs
     \<and> (\<forall>ch q ao. Issued (AssertQueue ch q ao) \<in> set evs
           \<longrightarrow> q = queue (this st) \<and> ao = main_queue_options (this st))
     \<and> (\<forall>ch q p po. SendToQueue ch q p po \<in> set evs \<longrightarrow> q = queue (this st))
     \<and> (fst (enqueue rt b m options st) = Inr ()
           \<longrightarrow> (\<exists>ch p po. evs \<noteq> [] \<and> last evs = SendToQueue ch (queue (this st)) p po))
     \<and> ((senderChannel (this st) \<noteq> None \<or> accepts b CreateChannel)
          \<and> (\<exists>p. Buffer_from rt (JSON_stringify rt m) = Inr p)
           \<longrightarrow> fst (enqueue rt b m options st) = Inr ())"
proof -
  obtain g where g: "trace (snd (getSenderChannel b st)) = trace st @ g"
      "filter is_publish g = []"
      "\<forall>ch q ao. Issued (AssertQueue ch q ao) \<in> set g
         \<longrightarrow> q = queue (this st) \<and> ao = main_queue_options (this st)"
    using getSenderChannel_trace[of b st] by blast
  have nopub: "\<And>ch q p po. SendToQueue ch q p po \<notin> set g"
  proof
    fix ch q p po assume "SendToQueue ch q p po \<in> set g"
    then have "SendToQueue ch q p po \<in> set (filter is_publish g)" by simp
    with g(2) show False by simp
  qed
  obtain res st1 where gs: "getSenderChannel b st = (res, st1)" by (cases "getSenderChannel b st")
  have cfg: "queue (this st1) = queue (this st)"
    using getSenderChannel_config[of b st] gs by simp
  show ?thesis
  proof (cases res)
    case (Inl e)
    then have eq: "enqueue rt b m options st = (Inl e, st1)"
      using gs by (simp add: enqueue_channel_failed)
    have "senderChannel (this st) = None \<and> \<not> accepts b CreateChannel"
      using gs Inl by (cases "senderChannel (this st)"; cases "accepts b CreateChannel")
        (auto simp: getSenderChannel_def prepareQueue_def promise_defs)
    then show ?thesis using eq g gs nopub by (intro exI[of _ g]) auto
  next
    case (Inr channel)
    note d = enqueue_direct[OF gs[unfolded Inr] assms, of rt m]
    show ?thesis
    proof (cases "Buffer_from rt (JSON_stringify rt m)")
      case (Inl e)
      then show ?thesis using d g gs nopub by (intro exI[of _ g]) auto
    next
      case (Inr payload)
      then show ?thesis using d g gs nopub cfg
        by (intro exI[of _ "g @ [SendToQueue channel (queue (this st)) payload (publish_opts (this st1))]"])
           (auto simp: emit_def)
    qed
  qed
qed

theorem enqueue_without_delay_witness:
  "(total_millisecond (Some \<lparr> delay = Some (- 5) \<rparr>) = None
      \<or> (\<exists>d. total_millisecond (Some \<lparr> delay = Some (- 5) \<rparr>) = Some d \<and> d \<le> 0))
   \<and> fst (enqueue example_runtime reliable_broker (JString ''Hello, world!'')
            (Some \<lparr> delay = Some (- 5) \<rparr>) fresh) = Inr ()
   \<and> (\<exists>evs. trace (snd (enqueue example_runtime reliable_broker (JString ''Hello, world!'')
                        (Some \<lparr> delay = Some (- 5) \<rparr>) fresh)) = trace fresh @ evs
         \<and> (\<exists>ch p po. evs \<noteq> [] \<and> last evs = SendToQueue ch (queue (this fresh)) p po))"
proof -
  have h: "total_millisecond (Some \<lparr> delay = Some (- 5) \<rparr>) = None
      \<or> (\<exists>d. total_millisecond (Some \<lparr> delay = Some (- 5) \<rparr>) = Some d \<and> d \<le> 0)"
    by (simp add: total_millisecond_def)
  have ok: "(senderChannel (this fresh) \<noteq> None \<or> accepts reliable_broker CreateChannel)
      \<and> (\<exists>p. Buffer_from example_runtime
                (JSON_stringify example_runtime (JString ''Hello, world!'')) = Inr p)"
    by (simp add: example_defs Buffer_from_def)
  show ?thesis
    using enqueue_without_delay[OF h, of example_runtime reliable_broker
        "JString ''Hello, world!''" fresh] h ok
    by blast
qed

text \<open>
  C7.  With a positive delay \<open>d\<close>, once the channel is there (no publish has happened
  by then), \<open>enqueue\<close> issues the declaration of the delay queue, named by prefix and
  delay, with auto-delete, the configured durability, the default exchange as dead-letter
  exchange, the main queue's name as dead-letter routing key and \<open>d\<close> as message
  time-to-live; the publish follows the answer to that declaration, and nothing is
  published when the declaration is refused.
\<close>

theorem enqueue_with_delay:
  assumes "total_millisecond options = Some d" and "0 < d"
      and "getSenderChannel b st = (Inr channel, st1)"
  shows "let r = AssertQueue channel (delayedQueuePrefix (this st) @ toLocaleString_en d)
                   \<lparr> aq_autoDelete = Some True, aq_durable = Some (durable (this st)),
                     aq_deadLetterExchange = Some [],
                     aq_deadLetterRoutingKey = Some (queue (this st)),
                     aq_messageTtl = Some d \<rparr>
         in filter is_publish (trace st1) = filter is_publish (trace st)
          \<and> trace (snd (enqueue rt b m options st)) =
              trace st1 @ [Issued r]
              @ (if accepts b r
                 then [Answered r]
                      @ (case Buffer_from rt (JSON_stringify rt m) of
                           Inl e \<Rightarrow> []
                         | Inr payload \<Rightarrow>
                             [SendToQueue channel (delayedQueuePrefix (this st) @ toLocaleString_en d)
                                payload (publish_opts (this st))])
                 else [Refused r])"
proof -
  have cfg: "queue (this st1) = queue (this st)" "durable (this st1) = durable (this st)"
      "delayedQueuePrefix (this st1) = delayedQueuePrefix (this st)"
    using getSenderChannel_config[of b st] assms(3) by simp_all
  obtain g where g: "trace st1 = trace st @ g" "filter is_publish g = []"
    using getSenderChannel_trace[of b st] assms(3) by auto
  have "filter is_publish (trace st1) = filter is_publish (trace st)"
    using g by simp
  moreover have "trace (snd (enqueue rt b m options st)) =
              trace st1 @ [Issued (AssertQueue channel (delay_queue_name (this st1) d) (delay_queue_options (this st1) d))]
              @ (if accepts b (AssertQueue channel (delay_queue_name (this st1) d) (delay_queue_options (this st1) d))
                 then [Answered (AssertQueue channel (delay_queue_name (this st1) d) (delay_queue_options (this st1) d))]
                      @ (case Buffer_from rt (JSON_stringify rt m) of
                           Inl e \<Rightarrow> []
                         | Inr payload \<Rightarrow>
                             [SendToQueue channel (delay_queue_name (this st1) d)
                                payload (publish_opts (this st1))])
                 else [Refused (AssertQueue channel (delay_queue_name (this st1) d) (delay_queue_options (this st1) d))])"
    unfolding enqueue_delayed[OF assms(3) assms(1) assms(2), of rt m]
    by (simp add: Let_def emit_def split: sum.splits)
  ultimately show ?thesis
    using cfg
    by (simp add: Let_def delay_queue_name_def delay_queue_options_def publish_opts_def
          split: sum.splits)
qed

theorem enqueue_with_delay_witness:
  "total_millisecond (Some \<lparr> delay = Some 3000 \<rparr>) = Some 3000 \<and> (0::rat) < 3000
   \<and> fst (getSenderChannel reliable_broker fresh) = Inr 0
   \<and> trace (snd (enqueue example_runtime reliable_broker (JString ''Delayed message'')
               (Some \<lparr> delay = Some 3000 \<rparr>) fresh)) =
       [Issued CreateChannel, Answered CreateChannel,
        Issued (AssertQueue 0 ''fedify_queue'' (main_queue_options (this fresh))),
        Issued (AssertQueue 0 ''fedify_delayed_3000''
                 \<lparr> aq_autoDelete = Some True, aq_durable = Some True,
                   aq_deadLetterExchange = Some [],
                   aq_deadLetterRoutingKey = Some ''fedify_queue'',
                   aq_messageTtl = Some 3000 \<rparr>),
        Answered (AssertQueue 0 ''fedify_delayed_3000''
                 \<lparr> aq_autoDelete = Some True, aq_durable = Some True,
                   aq_deadLetterExchange = Some [],
                   aq_deadLetterRoutingKey = Some ''fedify_queue'',
                   aq_messageTtl = Some 3000 \<rparr>),
        SendToQueue 0 ''fedify_delayed_3000''
          (utf8_encode example_runtime (quote ''Delayed message''))
          \<lparr> persistent = True, contentType = ''application/json'' \<rparr>]"
proof -
  have h1: "total_millisecond (Some \<lparr> delay = Some 3000 \<rparr>) = Some 3000"
    by (simp add: total_millisecond_def)
  have h2: "(0::rat) < 3000" by simp
  obtain st1 where h3: "getSenderChannel reliable_broker fresh = (Inr 0, st1)"
    by (simp add: example_defs promise_defs enqueue_defs)
  have t: "trace st1 = [Issued CreateChannel, Answered CreateChannel,
        Issued (AssertQueue 0 ''fedify_queue'' (main_queue_options (this fresh)))]"
    using h3 by (auto simp add: example_defs promise_defs enqueue_defs)
  have n: "toLocaleString_en 3000 = ''3000''"
    by (simp add: toLocaleString_en_def thousandths_def floor_rat_numeral fraction_digits_def
          digits.simps digit_def)
  show ?thesis
    using enqueue_with_delay[OF h1 h2 h3, of example_runtime "JString ''Delayed message''"] h1 h3 t n
    by (simp add: Let_def example_defs Buffer_from_def publish_opts_def)
qed

text \<open>
  C8.  Whatever \<open>enqueue\<close> publishes is sent with the persistent flag equal to the
  configured durability and the content type \<^verbatim>\<open>application/json\<close>, and its payload is
  the encoding of the text that \<^verbatim>\<open>JSON.stringify\<close> returned for the message; a call
  publishes once when it succeeds and not at all when it fails.
\<close>

theorem enqueue_publish_format:
  "\<exists>evs. trace (snd (enqueue rt b m options st)) = trace st @ evs
     \<and> (\<forall>ch q p po. SendToQueue ch q p po \<in> set evs
           \<longrightarrow> persistent po = durable (this st) \<and> contentType po = ''application/json''
               \<and> (\<exists>s. JSON_stringify rt m = Text s \<and> p = utf8_encode rt s))
     \<and> length (filter is_publish evs) = (if fst (enqueue rt b m options st) = Inr () then 1 else 0)"
proof -
  obtain g where g: "trace (snd (getSenderChannel b st)) = trace st @ g"
      "filter is_publish g = []"
    using getSenderChannel_trace[of b st] by blast
  have nopub: "\<And>ch q p po. SendToQueue ch q p po \<notin> set g"
  proof
    fix ch q p po assume "SendToQueue ch q p po \<in> set g"
    then have "SendToQueue ch q p po \<in> set (filter is_publish g)" by simp
    with g(2) show False by simp
  qed
  obtain res st1 where gs: "getSenderChannel b st = (res, st1)" by (cases "getSenderChannel b st")
  have cfg: "durable (this st1) = durable (this st)"
    using getSenderChannel_config[of b st] gs by simp
  show ?thesis
  proof (cases res)
    case (Inl e)
    then have "enqueue rt b m options st = (Inl e, st1)"
      using gs by (simp add: enqueue_channel_failed)
    then show ?thesis using g gs nopub by (intro exI[of _ g]) auto
  next
    case (Inr channel)
    note gs' = gs[unfolded Inr]
    show ?thesis
    proof (cases options rule: delay_cases)
      case direct
      note d = enqueue_direct[OF gs' direct, of rt m]
      show ?thesis
      proof (cases "Buffer_from rt (JSON_stringify rt m)")
        case (Inl e)
        then show ?thesis using d g gs nopub by (intro exI[of _ g]) auto
      next
        case (Inr payload)
        from Buffer_from_Inr[OF this] obtain s where s: "JSON_stringify rt m = Text s" "payload = utf8_encode rt s" by blast
        show ?thesis using d g gs nopub cfg Inr s
          by (intro exI[of _ "g @ [SendToQueue channel (queue (this st1)) payload (publish_opts (this st1))]"])
             (auto simp: emit_def publish_opts_def)
      qed
    next
      case (delayed d)
      let ?r = "AssertQueue channel (delay_queue_name (this st1) d) (delay_queue_options (this st1) d)"
      note e = enqueue_delayed[OF gs' delayed, of rt m]
      show ?thesis
      proof (cases "accepts b ?r")
        case False
        then show ?thesis using e g gs nopub
          by (intro exI[of _ "g @ [Issued ?r, Refused ?r]"]) (auto simp: emit_def Let_def)
      next
        case True
        show ?thesis
        proof (cases "Buffer_from rt (JSON_stringify rt m)")
          case (Inl err)
          then show ?thesis using e g gs nopub True
            by (intro exI[of _ "g @ [Issued ?r, Answered ?r]"]) (auto simp: emit_def Let_def)
        next
          case (Inr payload)
          from Buffer_from_Inr[OF this] obtain s where s: "JSON_stringify rt m = Text s" "payload = utf8_encode rt s" by blast
          show ?thesis using e g gs nopub cfg Inr s True
            by (intro exI[of _ "g @ [Issued ?r, Answered ?r, SendToQueue channel (delay_queue_name (this st1) d) payload (publish_opts (this st1))]"])
               (auto simp: emit_def publish_opts_def Let_def)
        qed
      qed
    qed
  qed
qed

theorem enqueue_publish_format_witness:
  "\<exists>evs. trace (snd (enqueue example_runtime reliable_broker (JString ''Hello, world!'') None
                     fresh)) = trace fresh @ evs
     \<and> SendToQueue 0 ''fedify_queue'' (utf8_encode example_runtime (quote ''Hello, world!''))
          \<lparr> persistent = True, contentType = ''application/json'' \<rparr> \<in> set evs
     \<and> durable (this fresh) = True
     \<and> JSON_stringify example_runtime (JString ''Hello, world!'') = Text (quote ''Hello, world!'')
     \<and> length (filter is_publish evs) = 1"
proof -
  have r: "fst (enqueue example_runtime reliable_broker (JString ''Hello, world!'') None fresh) = Inr ()"
    by (simp add: example_defs promise_defs enqueue_defs)
  have t: "trace (snd (enqueue example_runtime reliable_broker (JString ''Hello, world!'') None fresh)) =
      trace fresh @ [Issued CreateChannel, Answered CreateChannel,
        Issued (AssertQueue 0 ''fedify_queue'' (main_queue_options (this fresh))),
        SendToQueue 0 ''fedify_queue'' (utf8_encode example_runtime (quote ''Hello, world!''))
          \<lparr> persistent = True, contentType = ''application/json'' \<rparr>]"
    by (simp add: example_defs promise_defs enqueue_defs)
  obtain evs where evs: "trace (snd (enqueue example_runtime reliable_broker
        (JString ''Hello, world!'') None fresh)) = trace fresh @ evs"
      "length (filter is_publish evs) = 1"
    using enqueue_publish_format[of example_runtime reliable_broker "JString ''Hello, world!''"
        None fresh] r by auto
  have "durable (this fresh) = True" 
    "JSON_stringify example_runtime (JString ''Hello, world!'') = Text (quote ''Hello, world!'')"
    by (simp_all add: example_defs)
  then show ?thesis using evs t by (intro exI[of _ evs]) auto
qed




subsection \<open>Consuming\<close>

text \<open>
  What the consumer does with a message that parses: a handler that returns is followed
  by the acknowledgement; so is the settling of a promise the handler returned, fulfilled
  or rejected; an exception thrown by the handler leaves the callback.
\<close>

lemma on_message_acknowledges:
  assumes "JSON_parse rt (utf8_decode rt (content m)) = Some message"
  shows "handler message = Returned \<Longrightarrow>
           trace (world (react rt b handler (Delivers (Some m)) s)) =
             trace (world s) @ [Invoked m message, Completed m True, Ack (consumer_channel s) m]"
    and "handler message = ReturnedPromise \<Longrightarrow>
           trace (world (react rt b handler (Settles m fulfilled)
                          (react rt b handler (Delivers (Some m)) s))) =
             trace (world s) @ [Invoked m message, Completed m fulfilled, Ack (consumer_channel s) m]"
    and "handler message = Threw \<Longrightarrow>
           trace (world (react rt b handler (Delivers (Some m)) s)) =
             trace (world s) @ [Invoked m message, Completed m False, Uncaught HandlerError]"
  using assms by (simp_all add: on_message_def react_def on_settled_def emit_def)

text \<open>
  C1.  The claim: the message is acknowledged after the handler completes, whether it
  succeeds or fails, also when the handler throws synchronously.  The code acknowledges
  in the callback of \<^verbatim>\<open>finally\<close> for a promise, and after the call for any other
  result; an exception thrown by the call itself skips both.  With a handler that throws,
  the message \<open>hello\<close> is parsed, the handler is called and fails, the exception leaves
  the callback, and no acknowledgement is sent.
\<close>

theorem on_message_handler_throws:
  "JSON_parse example_runtime (utf8_decode example_runtime (content hello))
     = Some (JString ''Hello, world!'')
   \<and> on_message example_runtime (\<lambda>message. Threw) (Some hello) (listening None) =
       (Inl HandlerError,
        (listening None)\<lparr> world :=
           emit [Invoked hello (JString ''Hello, world!''), Completed hello False]
             (world (listening None)) \<rparr>)
   \<and> filter is_ack (trace (world (run example_runtime reliable_broker (\<lambda>message. Threw)
         [Delivers (Some hello)] (listening None)))) = []"
  by code_simp

text \<open>
  C5.  The claim: a payload that cannot be deserialized is swallowed and logged inside
  the consumer, and does not leave the callback.  The code calls \<^verbatim>\<open>JSON.parse\<close> outside
  any \<^verbatim>\<open>try\<close>: on the payload \<^verbatim>\<open>{\<close> the SyntaxError leaves the callback.
\<close>

theorem on_message_malformed_counterexample:
  "JSON_parse example_runtime (utf8_decode example_runtime (content malformed)) = None
   \<and> on_message example_runtime (\<lambda>message. Returned) (Some malformed) (listening None) =
       (Inl SyntaxError, listening None)
   \<and> trace (world (run example_runtime reliable_broker (\<lambda>message. Returned)
         [Delivers (Some malformed)] (listening None))) =
       trace (world (listening None)) @ [Uncaught SyntaxError]"
  by code_simp

text \<open>
  C5, as the code has it.  When the payload of a message cannot be parsed, the
  SyntaxError leaves the callback as an uncaught exception; the handler is not called,
  the message is not acknowledged, and the consumer's state is as before.
\<close>

theorem on_message_malformed:
  assumes "JSON_parse rt (utf8_decode rt (content m)) = None"
  shows "on_message rt handler (Some m) s = (Inl SyntaxError, s)
       \<and> react rt b handler (Delivers (Some m)) s = s\<lparr> world := emit [Uncaught SyntaxError] (world s) \<rparr>"
  using assms by (simp add: on_message_def react_def)

theorem on_message_malformed_witness:
  "JSON_parse example_runtime (utf8_decode example_runtime (content malformed)) = None
   \<and> on_message example_runtime (\<lambda>message. ReturnedPromise) (Some malformed) (listening None)
       = (Inl SyntaxError, listening None)
   \<and> react example_runtime reliable_broker (\<lambda>message. ReturnedPromise) (Delivers (Some malformed))
         (listening None)
       = (listening None)\<lparr> world := emit [Uncaught SyntaxError] (world (listening None)) \<rparr>"
proof -
  have h: "JSON_parse example_runtime (utf8_decode example_runtime (content malformed)) = None"
    by code_simp
  show ?thesis
    using on_message_malformed[OF h, of "\<lambda>message. ReturnedPromise" "listening None" reliable_broker] h
    by simp
qed

subsection \<open>Shutting down\<close>

lemma count_list_remove1:
  "count_list (remove1 r xs) x =
     (if r = x \<and> x \<in> set xs then count_list xs x - 1 else count_list xs x)"
  by (induction xs) auto

lemma in_set_count_list: "x \<in> set xs \<longleftrightarrow> 0 < count_list xs x"
  using count_list_0_iff[of xs x] by auto

lemma react_Delivers_stage:
  assumes "in_stage n ch tag g s"
  shows "in_stage n ch tag g (react rt b handler (Delivers msg) s)"
  using assms
  by (auto simp: in_stage_def react_def on_message_def emit_def shutdown_trace_def
        shutdown_steps_def split: option.splits handler_result.splits)

lemma react_Settles_stage:
  assumes "in_stage n ch tag g s"
  shows "in_stage n ch tag g (react rt b handler (Settles m f) s)"
  using assms
  by (auto simp: in_stage_def react_def on_settled_def emit_def shutdown_trace_def
        shutdown_steps_def)

lemma react_Aborts_stage:
  assumes "in_stage n ch tag g s"
  shows "in_stage n ch tag (if g = Idle then Cancelling else g) (react rt b handler Aborts s)"
  using assms
  by (auto simp: in_stage_def react_def on_abort_def call_def emit_def shutdown_trace_def
        shutdown_steps_def)

lemma react_Replies_stage:
  assumes "in_stage n ch tag g s"
  shows "\<exists>g'. in_stage n ch tag g' (react rt b handler (Replies r) s)"
proof (cases "r \<in> set (outstanding (world s))")
  case False
  then show ?thesis using assms by (auto simp: react_def)
next
  case True
  then have pos: "0 < count_list (outstanding (world s)) r" by (simp add: in_set_count_list)
  have ch: "consumer_channel s = ch" "reply_tag s = tag"
    using assms by (simp_all add: in_stage_def)
  consider (cancel) "r = Cancel ch tag" | (close) "r = Close ch"
    | (other) "r \<noteq> Cancel ch tag" "r \<noteq> Close ch" by blast
  then show ?thesis
  proof cases
    case cancel
    then have g: "g = Cancelling" using assms pos by (auto simp: in_stage_def split: if_splits)
    show ?thesis
    proof (cases "accepts b r")
      case True
      have "in_stage n ch tag Closing (react rt b handler (Replies r) s)"
        using assms g cancel True \<open>r \<in> set (outstanding (world s))\<close>
        by (auto simp: in_stage_def react_def await_def on_cancelled_def call_def emit_def
              shutdown_trace_def shutdown_steps_def count_list_remove1 Let_def)
      then show ?thesis ..
    next
      case False
      have "in_stage n ch tag CancelRefused (react rt b handler (Replies r) s)"
        using assms g cancel False \<open>r \<in> set (outstanding (world s))\<close>
        by (auto simp: in_stage_def react_def await_def emit_def
              shutdown_trace_def shutdown_steps_def count_list_remove1 Let_def)
      then show ?thesis ..
    qed
  next
    case close
    then have g: "g = Closing" using assms pos by (auto simp: in_stage_def split: if_splits)
    show ?thesis
    proof (cases "accepts b r")
      case True
      have "in_stage n ch tag Closed (react rt b handler (Replies r) s)"
        using assms g close True \<open>r \<in> set (outstanding (world s))\<close>
        by (auto simp: in_stage_def react_def await_def on_closed_def emit_def
              shutdown_trace_def shutdown_steps_def count_list_remove1 Let_def)
      then show ?thesis ..
    next
      case False
      have "in_stage n ch tag CloseRefused (react rt b handler (Replies r) s)"
        using assms g close False \<open>r \<in> set (outstanding (world s))\<close>
        by (auto simp: in_stage_def react_def await_def emit_def
              shutdown_trace_def shutdown_steps_def count_list_remove1 Let_def)
      then show ?thesis ..
    qed
  next
    case other
    have "in_stage n ch tag g (react rt b handler (Replies r) s)"
      using assms other \<open>r \<in> set (outstanding (world s))\<close>
      by (auto simp: in_stage_def react_def await_def emit_def
            shutdown_trace_def shutdown_steps_def count_list_remove1 Let_def)
    then show ?thesis ..
  qed
qed

lemma react_stage:
  assumes "in_stage n ch tag g s"
  shows "\<exists>g'. in_stage n ch tag g' (react rt b handler occ s)"
proof (cases occ)
  case (Delivers msg)
  then show ?thesis using react_Delivers_stage[OF assms] by blast
next
  case (Settles m f)
  then show ?thesis using react_Settles_stage[OF assms] by blast
next
  case Aborts
  then show ?thesis using react_Aborts_stage[OF assms] by blast
next
  case (Replies r)
  then show ?thesis using react_Replies_stage[OF assms] by blast
qed

lemma run_stage:
  "in_stage n ch tag g s \<Longrightarrow> \<exists>g'. in_stage n ch tag g' (run rt b handler occs s)"
proof (induction occs arbitrary: g s)
  case Nil
  then show ?case by auto
next
  case (Cons occ occs)
  from react_stage[OF Cons.prems] obtain g1
    where "in_stage n ch tag g1 (react rt b handler occ s)" by blast
  from Cons.IH[OF this] show ?case by simp
qed

text \<open>What \<open>listen\<close> leaves behind when it has set the consumer up.\<close>

lemma count_list_issue_settle:
  "count_list (remove1 r (xs @ [r])) x = count_list xs x"
  by (simp add: count_list_remove1)

lemma listen_session:
  assumes "listen b options st = Inr s"
  shows "consumer_channel s = opened st" and "reply_tag s = consumerTag b (opened st)"
    and "session_signal s = signal options" and "\<not> resolved s" and "unsettled s = []"
    and "count_list (outstanding (world s)) x = count_list (outstanding st) x"
    and "this (world s) = this st"
  using assms
  by (auto simp: listen_def createChannel_def await_prepareQueue_def prepareQueue_def
        await_def call_def emit_def Let_def count_list_remove1 split: if_splits)

lemma react_unreachable:
  assumes "unreachable n ch tag s"
  shows "unreachable n ch tag (react rt b handler occ s)"
proof (cases occ)
  case (Delivers msg)
  then show ?thesis using assms
    by (auto simp: unreachable_def react_def on_message_def emit_def
          split: option.splits handler_result.splits)
next
  case (Settles m f)
  then show ?thesis using assms
    by (auto simp: unreachable_def react_def on_settled_def emit_def)
next
  case Aborts
  then show ?thesis using assms
    by (auto simp: unreachable_def react_def split: option.splits)
next
  case (Replies r)
  show ?thesis
  proof (cases "r \<in> set (outstanding (world s))")
    case False
    then show ?thesis using assms Replies by (simp add: react_def)
  next
    case True
    then have "r \<noteq> Cancel ch tag" "r \<noteq> Close ch"
      using assms by (auto simp: unreachable_def)
    then show ?thesis using assms Replies True
      by (auto simp: unreachable_def react_def await_def emit_def Let_def
            dest: notin_set_remove1)
  qed
qed

lemma run_unreachable:
  "unreachable n ch tag s \<Longrightarrow> unreachable n ch tag (run rt b handler occs s)"
  by (induction occs arbitrary: s) (simp_all add: react_unreachable)

text \<open>
  C9.  A session that \<open>listen\<close> has set up with a signal that is not aborted yet, on a
  channel with no cancel or close request pending from before.  Whatever happens next,
  in whatever order (deliveries, handler promises settling, the signal firing, answers
  of the broker), the shutdown steps in the trace since then are an initial part of:
  cancel issued for this consumer tag, cancel answered, close issued, close answered,
  promise resolved.  The promise is resolved exactly when all five are there.  When the
  broker accepts the cancel and the close, the signal followed by the two answers
  runs through the five steps in this order and resolves the promise.
\<close>

theorem shutdown_order:
  assumes "listen b options st = Inr s"
      and "signal options = Some sig" and "\<not> aborted sig"
      and "Cancel (opened st) (consumerTag b (opened st)) \<notin> set (outstanding st)"
      and "Close (opened st) \<notin> set (outstanding st)"
  shows "(\<exists>k. shutdown_trace (length (trace (world s))) (run rt b handler occs s)
              = take k (shutdown_steps s))
       \<and> (resolved (run rt b handler occs s)
            \<longleftrightarrow> shutdown_trace (length (trace (world s))) (run rt b handler occs s)
                 = shutdown_steps s)
       \<and> (accepts b (Cancel (consumer_channel s) (reply_tag s)) \<and> accepts b (Close (consumer_channel s))
            \<longrightarrow> resolved (run rt b handler
                   [Aborts, Replies (Cancel (consumer_channel s) (reply_tag s)),
                    Replies (Close (consumer_channel s))] s)
              \<and> trace (world (run rt b handler
                   [Aborts, Replies (Cancel (consumer_channel s) (reply_tag s)),
                    Replies (Close (consumer_channel s))] s))
                 = trace (world s) @ shutdown_steps s)"
proof -
  note l = listen_session[OF assms(1)]
  let ?c = "Cancel (opened st) (consumerTag b (opened st))"
  let ?cl = "Close (opened st)"
  let ?n = "length (trace (world s))"
  have out: "count_list (outstanding (world s)) ?c = 0" "count_list (outstanding (world s)) ?cl = 0"
    using assms(4,5) l(6) by simp_all
  have nin: "?c \<notin> set (outstanding (world s))" "?cl \<notin> set (outstanding (world s))"
    using out by (simp_all add: count_list_0_iff)
  have "in_stage ?n (opened st) (consumerTag b (opened st)) Idle s"
    using l assms(2,3) out by (simp add: in_stage_def shutdown_trace_def)
  from run_stage[OF this, of rt b handler occs] obtain g
    where g: "in_stage ?n (opened st) (consumerTag b (opened st)) g (run rt b handler occs s)"
    by blast
  let ?s' = "run rt b handler occs s"
  have same: "shutdown_steps ?s' = shutdown_steps s"
    using g l by (simp add: in_stage_def shutdown_steps_def)
  have tr: "shutdown_trace ?n ?s' = take (steps_done g) (shutdown_steps s)"
    using g same by (simp add: in_stage_def)
  have res: "resolved ?s' \<longleftrightarrow> g = Closed"
    using g by (simp add: in_stage_def)
  have full: "take (steps_done g) (shutdown_steps s) = shutdown_steps s \<longleftrightarrow> g = Closed"
    by (cases g) (simp_all add: shutdown_steps_def)
  have live: "accepts b ?c \<and> accepts b ?cl \<longrightarrow>
      resolved (run rt b handler [Aborts, Replies ?c, Replies ?cl] s)
      \<and> trace (world (run rt b handler [Aborts, Replies ?c, Replies ?cl] s))
          = trace (world s) @ shutdown_steps s"
    using l assms(2,3) nin
    by (simp add: react_def on_abort_def on_cancelled_def on_closed_def await_def call_def
          emit_def shutdown_steps_def Let_def)
  show ?thesis using tr res full live l by auto
qed

theorem shutdown_order_witness:
  "listen reliable_broker \<lparr> signal = Some \<lparr> aborted = False \<rparr> \<rparr> fresh
     = Inr (listening (Some \<lparr> aborted = False \<rparr>))
   \<and> \<not> aborted \<lparr> aborted = False \<rparr>
   \<and> Cancel (opened fresh) (consumerTag reliable_broker (opened fresh)) \<notin> set (outstanding fresh)
   \<and> Close (opened fresh) \<notin> set (outstanding fresh)
   \<and> resolved (run example_runtime reliable_broker (\<lambda>message. ReturnedPromise)
        [Delivers (Some hello), Aborts, Replies (Cancel 0 ''amq.ctag-0''), Settles hello True,
         Replies (Close 0)]
        (listening (Some \<lparr> aborted = False \<rparr>)))
   \<and> shutdown_trace (length (trace (world (listening (Some \<lparr> aborted = False \<rparr>)))))
        (run example_runtime reliable_broker (\<lambda>message. ReturnedPromise)
          [Delivers (Some hello), Aborts, Replies (Cancel 0 ''amq.ctag-0''), Settles hello True,
           Replies (Close 0)]
          (listening (Some \<lparr> aborted = False \<rparr>)))
      = [Issued (Cancel 0 ''amq.ctag-0''), Answered (Cancel 0 ''amq.ctag-0''),
         Issued (Close 0), Answered (Close 0), Resolved]"
proof -
  have h1: "listen reliable_broker \<lparr> signal = Some \<lparr> aborted = False \<rparr> \<rparr> fresh
     = Inr (listening (Some \<lparr> aborted = False \<rparr>))"
    by (rule listen_fresh)
  have h2: "signal \<lparr> signal = Some \<lparr> aborted = False \<rparr> \<rparr> = Some \<lparr> aborted = False \<rparr>"
    and h3: "\<not> aborted \<lparr> aborted = False \<rparr>"
    by simp_all
  have h4: "Cancel (opened fresh) (consumerTag reliable_broker (opened fresh)) \<notin> set (outstanding fresh)"
    and h5: "Close (opened fresh) \<notin> set (outstanding fresh)"
    by (simp_all add: example_defs)
  have r: "resolved (run example_runtime reliable_broker (\<lambda>message. ReturnedPromise)
        [Delivers (Some hello), Aborts, Replies (Cancel 0 ''amq.ctag-0''), Settles hello True,
         Replies (Close 0)]
        (listening (Some \<lparr> aborted = False \<rparr>)))"
    by code_simp
  have steps: "shutdown_steps (listening (Some \<lparr> aborted = False \<rparr>))
      = [Issued (Cancel 0 ''amq.ctag-0''), Answered (Cancel 0 ''amq.ctag-0''),
         Issued (Close 0), Answered (Close 0), Resolved]"
    by (simp add: shutdown_steps_def listening_def)
  show ?thesis
    using shutdown_order[OF h1 h2 h3 h4 h5, of example_runtime "\<lambda>message. ReturnedPromise"
        "[Delivers (Some hello), Aborts, Replies (Cancel 0 ''amq.ctag-0''), Settles hello True,
          Replies (Close 0)]"] h1 h3 h4 h5 r steps
    by simp
qed

text \<open>
  C10.  A session that \<open>listen\<close> has set up with no signal, or with a signal that is
  aborted already, on a channel with no cancel or close request pending from before.
  Whatever happens next, the promise that \<open>listen\<close> returned is not resolved.
\<close>

theorem listen_never_resolves:
  assumes "listen b options st = Inr s"
      and "signal options = None \<or> (\<exists>sig. signal options = Some sig \<and> aborted sig)"
      and "Cancel (opened st) (consumerTag b (opened st)) \<notin> set (outstanding st)"
      and "Close (opened st) \<notin> set (outstanding st)"
  shows "\<not> resolved (run rt b handler occs s)
       \<and> Resolved \<notin> set (drop (length (trace (world s)))
                           (trace (world (run rt b handler occs s))))"
proof -
  note l = listen_session[OF assms(1)]
  have "Cancel (opened st) (consumerTag b (opened st)) \<notin> set (outstanding (world s))"
       "Close (opened st) \<notin> set (outstanding (world s))"
    using assms(3,4) l(6) by (simp_all add: in_set_count_list)
  then have "unreachable (length (trace (world s))) (opened st) (consumerTag b (opened st)) s"
    using l assms(2) by (auto simp: unreachable_def)
  from run_unreachable[OF this, of rt b handler occs] show ?thesis
    by (simp add: unreachable_def)
qed

theorem listen_never_resolves_witness:
  "listen reliable_broker \<lparr> signal = Some \<lparr> aborted = True \<rparr> \<rparr> fresh
     = Inr (listening (Some \<lparr> aborted = True \<rparr>))
   \<and> aborted \<lparr> aborted = True \<rparr>
   \<and> Cancel (opened fresh) (consumerTag reliable_broker (opened fresh)) \<notin> set (outstanding fresh)
   \<and> Close (opened fresh) \<notin> set (outstanding fresh)
   \<and> \<not> resolved (run example_runtime reliable_broker (\<lambda>message. Returned)
          [Aborts, Replies (Cancel 0 ''amq.ctag-0''), Replies (Close 0)]
          (listening (Some \<lparr> aborted = True \<rparr>)))"
proof -
  have h1: "listen reliable_broker \<lparr> signal = Some \<lparr> aborted = True \<rparr> \<rparr> fresh
     = Inr (listening (Some \<lparr> aborted = True \<rparr>))"
    by (rule listen_fresh)
  have h2: "signal \<lparr> signal = Some \<lparr> aborted = True \<rparr> \<rparr> = None
      \<or> (\<exists>sig. signal \<lparr> signal = Some \<lparr> aborted = True \<rparr> \<rparr> = Some sig \<and> aborted sig)"
    by simp
  have h3: "Cancel (opened fresh) (consumerTag reliable_broker (opened fresh)) \<notin> set (outstanding fresh)"
    and h4: "Close (opened fresh) \<notin> set (outstanding fresh)"
    by (simp_all add: example_defs)
  show ?thesis
    using listen_never_resolves[OF h1 h2 h3 h4, of example_runtime "\<lambda>message. Returned"
        "[Aborts, Replies (Cancel 0 ''amq.ctag-0''), Replies (Close 0)]"] h1 h3 h4
    by simp
qed

subsection \<open>The name of a delay queue\<close>

lemma of_char_nth_digit:
  fixes j :: nat
  assumes "j < 10"
  shows "of_char (''0123456789'' ! j) = (48 + j :: nat)"
proof -
  have "\<forall>i \<in> set [0..<10]. of_char (''0123456789'' ! i) = (48 + i :: nat)"
    by code_simp
  then show ?thesis using assms by simp
qed

lemma of_char_digit: "of_char (digit k) = (48 + k mod 10 :: nat)"
  unfolding digit_def by (rule of_char_nth_digit) simp



lemma digit_not_point: "digit k \<noteq> CHR ''.''"
proof
  assume "digit k = CHR ''.''"
  then have "(of_char (digit k) :: nat) = of_char CHR ''.''" by simp
  then show False by (simp add: of_char_digit)
qed





















end
